theory Spec2Isabelle
  imports Main "HOL-Library.Word"
begin

unbundle bit_operations_syntax

section \<open>The BPF simulator \<open>tools/bpf_sim.c\<close>\<close>

text \<open>
  The simulator leaves through \<open>exit\<close> on every path. A run is modelled by the value it
  leaves with: what it wrote to the two streams and the status passed to \<open>exit\<close>.
  A loop that never leaves has no such value (\<open>None\<close> of the option type below).
\<close>

subsection \<open>Exit statuses and printing\<close>

text \<open>The \<open>errno.h\<close> codes the program names.\<close>

datatype errno = E2BIG | ENOEXEC | ENOMEM | EFAULT | EINVAL | EDOM | ERANGE | EOPNOTSUPP

text \<open>Their numbers on Linux (\<open>asm-generic/errno-base.h\<close>, \<open>errno.h\<close>); they are used only
  where the verbose messages print a code with \<open>%d\<close>.\<close>

fun errno_val :: "errno \<Rightarrow> nat" where
  "errno_val E2BIG = 7"
| "errno_val ENOEXEC = 8"
| "errno_val ENOMEM = 12"
| "errno_val EFAULT = 14"
| "errno_val EINVAL = 22"
| "errno_val EDOM = 33"
| "errno_val ERANGE = 34"
| "errno_val EOPNOTSUPP = 95"

datatype exit_code = Exit_0 | Exit_errno errno

record proc_exit =
  to_stdout :: string
  to_stderr :: string
  code :: exit_code

text \<open>\<open>printf\<close>'s \<open>%u\<close> and \<open>%d\<close>: decimal digits, most significant first.\<close>

fun show_nat :: "nat \<Rightarrow> string" where
  "show_nat n =
     (if n < 10 then [char_of (48 + n)]
      else show_nat (n div 10) @ [char_of (48 + n mod 10)])"

declare show_nat.simps [simp del]

definition show_int :: "int \<Rightarrow> string" where
  "show_int i = (if i < 0 then CHR ''-'' # show_nat (nat (- i)) else show_nat (nat i))"

definition newline :: string where
  "newline = [CHR 0x0A]"

text \<open>\<open>exit_usage\<close> (lines 59-65).\<close>

definition exit_usage :: "string \<Rightarrow> proc_exit" where
  "exit_usage program =
     \<lparr>to_stdout = [],
      to_stderr = ''usage: '' @ program @ '' [-m {32,64}] -f <bpf_file> [-v]''
                  @ '' -s <syscall_num> [-0 <a0>] ... [-5 <a5>]'',
      code = Exit_errno EINVAL\<rparr>"

text \<open>\<open>exit_fault\<close> (lines 75-82); \<open>opt_verbose\<close> is the global set by \<open>-v\<close>.\<close>

definition exit_fault :: "bool \<Rightarrow> errno \<Rightarrow> proc_exit" where
  "exit_fault opt_verbose rc =
     \<lparr>to_stdout = [],
      to_stderr = (if opt_verbose then ''FAULT: errno = '' @ show_nat (errno_val rc) @ newline
                   else ''FAULT'' @ newline),
      code = Exit_errno EFAULT\<rparr>"

text \<open>\<open>exit_error\<close> (lines 93-100); \<open>line\<close> is an \<open>unsigned int\<close> printed with \<open>%d\<close>.\<close>

definition exit_error :: "bool \<Rightarrow> errno \<Rightarrow> 32 word \<Rightarrow> proc_exit" where
  "exit_error opt_verbose rc line =
     \<lparr>to_stdout = [],
      to_stderr = (if opt_verbose
                   then ''ERROR: errno = '' @ show_nat (errno_val rc)
                        @ '', line = '' @ show_int (sint line) @ newline
                   else ''ERROR'' @ newline),
      code = Exit_errno ENOEXEC\<rparr>"

subsection \<open>The action decoder\<close>

text \<open>\<open>end_action\<close> (lines 110-123): the label goes to stdout and the status is 0; a value
  that is no action leaves through \<open>exit_error\<close> with \<open>EDOM\<close>.\<close>

definition print_exit_0 :: "string \<Rightarrow> proc_exit" where
  "print_exit_0 s = \<lparr>to_stdout = s, to_stderr = [], code = Exit_0\<rparr>"

definition end_action :: "bool \<Rightarrow> 32 word \<Rightarrow> 32 word \<Rightarrow> proc_exit" where
  "end_action opt_verbose action line =
     (if action = 0x00000000 then print_exit_0 ''KILL''
      else if action = 0x00020000 then print_exit_0 ''TRAP''
      else if action AND 0xffff0000 = 0x00030000
        then print_exit_0 (''ERRNO('' @ show_nat (unat (action AND 0x0000ffff)) @ '')'')
      else if action = 0x7fff0000 then print_exit_0 ''ALLOW''
      else exit_error opt_verbose EDOM line)"

subsection \<open>What the simulator takes from \<open>bpf.h\<close>\<close>

text \<open>
  \<open>bpf.h\<close> is not among the sources. Its constants are parameters of the model: the six
  \<open>case\<close> labels of the dispatch (each a constant expression such as
  \<open>BPF_LD+BPF_W+BPF_ABS\<close>), the two offset limits of the syscall record, the length of the
  scratch array and the size of one instruction.
\<close>

record bpf_h =
  BPF_LD_W_ABS :: nat
  BPF_JMP_JA :: nat
  BPF_JMP_JEQ_K :: nat
  BPF_JMP_JGT_K :: nat
  BPF_JMP_JGE_K :: nat
  BPF_RET_K :: nat
  BPF_SYSCALL_MAX_32 :: nat
  BPF_SYSCALL_MAX_64 :: nat
  BPF_SCRATCH_SIZE :: nat
  sizeof_bpf_instr :: nat

text \<open>A \<open>switch\<close> compiles only if its labels differ.\<close>

definition case_labels :: "bpf_h \<Rightarrow> nat list" where
  "case_labels h =
     [BPF_LD_W_ABS h, BPF_JMP_JA h, BPF_JMP_JEQ_K h, BPF_JMP_JGT_K h, BPF_JMP_JGE_K h,
      BPF_RET_K h]"

text \<open>The values of classic BPF on Linux (\<open>linux/filter.h\<close>, \<open>linux/bpf_common.h\<close>), with a
  record of one 32-bit number and six 64-bit arguments; used for concrete runs.\<close>

definition linux_bpf_h :: bpf_h where
  "linux_bpf_h =
     \<lparr>BPF_LD_W_ABS = 0x20, BPF_JMP_JA = 0x05, BPF_JMP_JEQ_K = 0x15, BPF_JMP_JGT_K = 0x25,
      BPF_JMP_JGE_K = 0x35, BPF_RET_K = 0x06, BPF_SYSCALL_MAX_32 = 28,
      BPF_SYSCALL_MAX_64 = 52, BPF_SCRATCH_SIZE = 6, sizeof_bpf_instr = 8\<rparr>"

text \<open>
  Modelled from the spec: \<open>struct bpf_instr\<close> is declared in \<open>bpf.h\<close>, which is not among
  the sources. The spec's Instruction is a fixed-width record of an opcode, the offsets
  \<open>jt\<close> and \<open>jf\<close> and the immediate \<open>k\<close>; the fields are those \<open>bpf_execute\<close> reads.
  The widths are those of a classic BPF instruction: 16, 8, 8 and 32 bits (\<open>k\<close> is handed to
  \<open>end_action\<close> as a \<open>uint32_t\<close> and compared with the 32-bit accumulator).
\<close>

record bpf_instr =
  op :: "16 word"
  jt :: "8 word"
  jf :: "8 word"
  k :: "32 word"

subsection \<open>Machine state\<close>

text \<open>\<open>struct sim_state\<close> (lines 39-42).\<close>

record sim_state =
  acc :: "32 word"
  temp :: "32 word list"

text \<open>The locals of \<open>bpf_execute\<close> that live across loop passes (lines 136-137).\<close>

record machine =
  ip :: "32 word"
  ip_c :: "32 word"
  state :: sim_state

text \<open>
  \<open>struct bpf_syscall_data\<close> is declared in \<open>bpf.h\<close> too. The engine looks at it only
  through \<open>sys_data_b\<close>, its bytes in memory, so the record is the list of these bytes.
\<close>

text \<open>A pass of the loop either goes on with a new machine or stops. It stops by leaving
  the process, or by reading \<open>sys_data_b\<close> outside the record, which C leaves undefined.\<close>

datatype outcome = Exited proc_exit | Undefined_read

subsection \<open>The execution engine\<close>

text \<open>The assignment \<open>state.acc = sys_data_b[bpf->k]\<close> (lines 156 and 159): one
  \<open>unsigned char\<close> of the record, widened to 32 bits.\<close>

definition load_acc :: "8 word list \<Rightarrow> bpf_instr \<Rightarrow> machine \<Rightarrow> outcome + machine" where
  "load_acc sys_data_b bpf m =
     (if unat (k bpf) < length sys_data_b
      then Inr (m\<lparr>state := (state m)\<lparr>acc := ucast (sys_data_b ! unat (k bpf))\<rparr>\<rparr>)
      else Inl Undefined_read)"

text \<open>The \<open>switch\<close> (lines 152-193), on a machine whose \<open>ip\<close> is already bumped.
  \<open>ip += bpf->k\<close> is \<open>unsigned int\<close> arithmetic: it wraps modulo \<open>2 ^ 32\<close>.\<close>

definition bpf_switch ::
  "bpf_h \<Rightarrow> bool \<Rightarrow> nat \<Rightarrow> 8 word list \<Rightarrow> bpf_instr \<Rightarrow> machine \<Rightarrow> outcome + machine" where
  "bpf_switch h opt_verbose opt_machine sys_data_b bpf m =
     (if unat (op bpf) = BPF_LD_W_ABS h then
        (if opt_machine = 32 \<and> unat (k bpf) < BPF_SYSCALL_MAX_32 h
           then load_acc sys_data_b bpf m
         else if opt_machine = 64 \<and> unat (k bpf) < BPF_SYSCALL_MAX_64 h
           then load_acc sys_data_b bpf m
         else Inl (Exited (exit_error opt_verbose ERANGE (ip_c m))))
      else if unat (op bpf) = BPF_JMP_JA h then
        Inr (m\<lparr>ip := ip m + k bpf\<rparr>)
      else if unat (op bpf) = BPF_JMP_JEQ_K h then
        (if k bpf = acc (state m) then Inr (m\<lparr>ip := ip m + ucast (jt bpf)\<rparr>)
         else Inr (m\<lparr>ip := ip m + ucast (jf bpf)\<rparr>))
      else if unat (op bpf) = BPF_JMP_JGT_K h then
        (if k bpf > acc (state m) then Inr (m\<lparr>ip := ip m + ucast (jt bpf)\<rparr>)
         else Inr (m\<lparr>ip := ip m + ucast (jf bpf)\<rparr>))
      else if unat (op bpf) = BPF_JMP_JGE_K h then
        (if k bpf \<ge> acc (state m) then Inr (m\<lparr>ip := ip m + ucast (jt bpf)\<rparr>)
         else Inr (m\<lparr>ip := ip m + ucast (jf bpf)\<rparr>))
      else if unat (op bpf) = BPF_RET_K h then
        Inl (Exited (end_action opt_verbose (k bpf) (ip_c m)))
      else Inl (Exited (exit_fault opt_verbose EOPNOTSUPP)))"

text \<open>\<open>ip_c = ip; bpf = &prg->i[ip++]\<close> (lines 149-150).\<close>

definition bpf_fetch :: "machine \<Rightarrow> machine" where
  "bpf_fetch m = m\<lparr>ip_c := ip m, ip := ip m + 1\<rparr>"

text \<open>One pass: the loop test (line 147), the fetch and the switch; when the test fails,
  line 197.\<close>

definition bpf_pass ::
  "bpf_h \<Rightarrow> bool \<Rightarrow> nat \<Rightarrow> bpf_instr list \<Rightarrow> 8 word list \<Rightarrow> machine \<Rightarrow> outcome + machine" where
  "bpf_pass h opt_verbose opt_machine prg sys_data_b m =
     (if unat (ip m) < length prg
      then bpf_switch h opt_verbose opt_machine sys_data_b (prg ! unat (ip m)) (bpf_fetch m)
      else Inl (Exited (exit_error opt_verbose ERANGE (ip_c m))))"

text \<open>The \<open>while\<close> loop. It need not end, so its value is optional.\<close>

partial_function (option) bpf_loop ::
  "bpf_h \<Rightarrow> bool \<Rightarrow> nat \<Rightarrow> bpf_instr list \<Rightarrow> 8 word list \<Rightarrow> machine \<Rightarrow> outcome option" where
  "bpf_loop h opt_verbose opt_machine prg sys_data_b m =
     (case bpf_pass h opt_verbose opt_machine prg sys_data_b m of
        Inl e \<Rightarrow> Some e
      | Inr m' \<Rightarrow> bpf_loop h opt_verbose opt_machine prg sys_data_b m')"

declare bpf_loop.simps [code]

text \<open>The machine after \<open>memset\<close> (lines 142-144).\<close>

definition init_machine :: "bpf_h \<Rightarrow> machine" where
  "init_machine h =
     \<lparr>ip = 0, ip_c = 0, state = \<lparr>acc = 0, temp = replicate (BPF_SCRATCH_SIZE h) 0\<rparr>\<rparr>"

definition bpf_execute ::
  "bpf_h \<Rightarrow> bool \<Rightarrow> nat \<Rightarrow> bpf_instr list \<Rightarrow> 8 word list \<Rightarrow> outcome option" where
  "bpf_execute h opt_verbose opt_machine prg sys_data_b =
     bpf_loop h opt_verbose opt_machine prg sys_data_b (init_machine h)"

text \<open>The first \<open>n\<close> passes of the loop, for statements about the machines an execution
  goes through.\<close>

fun bpf_passes ::
  "nat \<Rightarrow> bpf_h \<Rightarrow> bool \<Rightarrow> nat \<Rightarrow> bpf_instr list \<Rightarrow> 8 word list \<Rightarrow> machine \<Rightarrow> outcome + machine"
where
  "bpf_passes 0 h opt_verbose opt_machine prg sys_data_b m = Inr m"
| "bpf_passes (Suc n) h opt_verbose opt_machine prg sys_data_b m =
     (case bpf_pass h opt_verbose opt_machine prg sys_data_b m of
        Inl e \<Rightarrow> Inl e
      | Inr m' \<Rightarrow> bpf_passes n h opt_verbose opt_machine prg sys_data_b m')"

subsection \<open>The loader\<close>

definition BPF_PRG_MAX_LEN :: nat where
  "BPF_PRG_MAX_LEN = 4096"

text \<open>\<open>read(fd, buf, n)\<close> on a regular file whose unread bytes are \<open>rest\<close>: it delivers
  \<open>n\<close> bytes, or all that is left when that is less, and moves the file offset.\<close>

definition read_fd :: "8 word list \<Rightarrow> nat \<Rightarrow> 8 word list \<times> 8 word list" where
  "read_fd rest n = (take n rest, drop n rest)"

text \<open>The \<open>do\<close> loop of \<open>main\<close> (lines 308-318). \<open>i\<close> holds the records counted so far, so
  \<open>i_cnt\<close> is its length; the bytes of a short read land in the next free slot and are
  not counted.\<close>

function load_loop ::
  "bool \<Rightarrow> nat \<Rightarrow> 8 word list \<Rightarrow> 8 word list list \<Rightarrow> proc_exit + 8 word list list" where
  "load_loop opt_verbose sz rest i =
     (let (buf, rest') = read_fd rest sz;
          fd_read_len = length buf;
          i' = (if fd_read_len = sz then i @ [buf] else i)
      in if length i' = BPF_PRG_MAX_LEN then Inl (exit_fault opt_verbose E2BIG)
         else if fd_read_len > 0 then load_loop opt_verbose sz rest' i'
         else Inr i')"
  by pat_completeness auto
termination
  by (relation "measure (\<lambda>(v, sz, rest, i). length rest)") (auto simp: read_fd_def)

declare load_loop.simps [simp del]

text \<open>The end of \<open>main\<close> (lines 299-322), once the buffer is allocated and the file is
  open: load the file, then execute. \<open>decode\<close> reads one \<open>struct bpf_instr\<close> from its bytes
  in memory.\<close>

definition load_and_execute ::
  "bpf_h \<Rightarrow> bool \<Rightarrow> nat \<Rightarrow> (8 word list \<Rightarrow> bpf_instr) \<Rightarrow> 8 word list \<Rightarrow> 8 word list
     \<Rightarrow> outcome option" where
  "load_and_execute h opt_verbose opt_machine decode file sys_data_b =
     (case load_loop opt_verbose (sizeof_bpf_instr h) file [] of
        Inl e \<Rightarrow> Some (Exited e)
      | Inr i \<Rightarrow> bpf_execute h opt_verbose opt_machine (map decode i) sys_data_b)"

section \<open>Properties\<close>

subsection \<open>The action decoder\<close>

lemma hex_ffff0000: "(0xffff0000 :: 32 word) = push_bit 16 (mask 16)"
  by (simp add: mask_eq_exp_minus_1 push_bit_eq_mult)

lemma hex_30000: "(0x30000 :: 32 word) = push_bit 16 (mask 2)"
  by (simp add: mask_eq_exp_minus_1 push_bit_eq_mult)

lemma three_mask: "(3 :: 32 word) = mask 2"
  by (simp add: mask_eq_exp_minus_1)

text \<open>The test of line 116 compares the upper half of the word with 3.\<close>

lemma action_errno_test:
  "(a AND 0xffff0000 = (0x00030000 :: 32 word)) \<longleftrightarrow> drop_bit 16 a = 3"
proof -
  have "(a AND push_bit 16 (mask 16) = push_bit 16 (mask 2)) \<longleftrightarrow> drop_bit 16 a = mask 2"
  proof
    assume h: "a AND push_bit 16 (mask 16) = push_bit 16 (mask 2)"
    show "drop_bit 16 a = mask 2"
    proof (rule bit_word_eqI)
      fix n assume "n < LENGTH(32)"
      from h have "bit (a AND push_bit 16 (mask 16)) (16 + n)
                     = bit (push_bit 16 (mask 2) :: 32 word) (16 + n)"
        by simp
      then show "bit (drop_bit 16 a) n = bit (mask 2 :: 32 word) n"
        by (auto simp add: bit_simps dest: bit_imp_le_length)
    qed
  next
    assume h: "drop_bit 16 a = mask 2"
    show "a AND push_bit 16 (mask 16) = push_bit 16 (mask 2)"
    proof (rule bit_word_eqI)
      fix n assume n: "n < LENGTH(32)"
      from h have "bit (drop_bit 16 a) (n - 16) = bit (mask 2 :: 32 word) (n - 16)"
        by simp
      then show "bit (a AND push_bit 16 (mask 16)) n = bit (push_bit 16 (mask 2) :: 32 word) n"
        using n by (auto simp add: bit_simps)
    qed
  qed
  then show ?thesis by (simp only: hex_ffff0000 hex_30000 three_mask)
qed

lemma action_errno_arg: "a AND (0x0000ffff :: 32 word) = take_bit 16 a"
  by (simp add: take_bit_eq_mask mask_eq_exp_minus_1)

lemma print_exit_0_eq: "print_exit_0 s = print_exit_0 t \<longleftrightarrow> s = t"
  by (simp add: print_exit_0_def)

lemma exit_error_neq_print: "exit_error v rc l \<noteq> print_exit_0 s"
  by (simp add: print_exit_0_def exit_error_def)

text \<open>
  Claim C1. \<open>end_action\<close> depends on the 32-bit value alone for its label: it prints
  \<open>KILL\<close> exactly for 0x00000000, \<open>TRAP\<close> exactly for 0x00020000, \<open>ALLOW\<close> exactly for
  0x7fff0000, and \<open>ERRNO(n)\<close> with \<open>n\<close> the low 16 bits exactly for the values whose high
  16 bits are 0x0003, each with status 0. Every other value, and no value of these four
  kinds, leaves through \<open>exit_error\<close> with \<open>EDOM\<close>: nothing on stdout, \<open>ERROR\<close> on stderr,
  status \<open>ENOEXEC\<close>.
\<close>

theorem end_action_decodes:
  "(end_action v a l = print_exit_0 ''KILL'' \<longleftrightarrow> a = 0x00000000) \<and>
   (end_action v a l = print_exit_0 ''TRAP'' \<longleftrightarrow> a = 0x00020000) \<and>
   (end_action v a l = print_exit_0 (''ERRNO('' @ show_nat (unat (take_bit 16 a)) @ '')'')
      \<longleftrightarrow> drop_bit 16 a = 3) \<and>
   (end_action v a l = print_exit_0 ''ALLOW'' \<longleftrightarrow> a = 0x7fff0000) \<and>
   (end_action v a l = exit_error v EDOM l
      \<longleftrightarrow> a \<noteq> 0x00000000 \<and> a \<noteq> 0x00020000 \<and> drop_bit 16 a \<noteq> 3 \<and> a \<noteq> 0x7fff0000) \<and>
   to_stdout (exit_error v EDOM l) = [] \<and>
   to_stderr (exit_error False EDOM l) = ''ERROR'' @ newline \<and>
   code (exit_error v EDOM l) = Exit_errno ENOEXEC \<and>
   code (print_exit_0 s) = Exit_0 \<and> to_stdout (print_exit_0 s) = s"
  by (auto simp add: end_action_def action_errno_test action_errno_arg print_exit_0_eq
        exit_error_neq_print exit_error_neq_print[symmetric])
     (simp_all add: exit_error_def print_exit_0_def)

subsection \<open>Single instructions\<close>

lemma switch_ld:
  "unat (op bpf) = BPF_LD_W_ABS h \<Longrightarrow>
   bpf_switch h v mach sys bpf m =
     (if (mach = 32 \<and> unat (k bpf) < BPF_SYSCALL_MAX_32 h) \<or>
         (mach = 64 \<and> unat (k bpf) < BPF_SYSCALL_MAX_64 h)
      then load_acc sys bpf m
      else Inl (Exited (exit_error v ERANGE (ip_c m))))"
  by (simp add: bpf_switch_def)

lemma labels_neq:
  assumes "distinct (case_labels h)"
  shows "BPF_JMP_JA h \<noteq> BPF_LD_W_ABS h"
    and "BPF_JMP_JEQ_K h \<noteq> BPF_LD_W_ABS h" and "BPF_JMP_JEQ_K h \<noteq> BPF_JMP_JA h"
    and "BPF_JMP_JGT_K h \<noteq> BPF_LD_W_ABS h" and "BPF_JMP_JGT_K h \<noteq> BPF_JMP_JA h"
    and "BPF_JMP_JGT_K h \<noteq> BPF_JMP_JEQ_K h"
    and "BPF_JMP_JGE_K h \<noteq> BPF_LD_W_ABS h" and "BPF_JMP_JGE_K h \<noteq> BPF_JMP_JA h"
    and "BPF_JMP_JGE_K h \<noteq> BPF_JMP_JEQ_K h" and "BPF_JMP_JGE_K h \<noteq> BPF_JMP_JGT_K h"
    and "BPF_RET_K h \<noteq> BPF_LD_W_ABS h" and "BPF_RET_K h \<noteq> BPF_JMP_JA h"
    and "BPF_RET_K h \<noteq> BPF_JMP_JEQ_K h" and "BPF_RET_K h \<noteq> BPF_JMP_JGT_K h"
    and "BPF_RET_K h \<noteq> BPF_JMP_JGE_K h"
  using assms unfolding case_labels_def by auto

lemma switch_jeq:
  assumes "distinct (case_labels h)" and "unat (op bpf) = BPF_JMP_JEQ_K h"
  shows "bpf_switch h v mach sys bpf m =
     Inr (m\<lparr>ip := ip m + ucast (if k bpf = acc (state m) then jt bpf else jf bpf)\<rparr>)"
  unfolding bpf_switch_def using assms(2) labels_neq [OF assms(1)] by simp

lemma switch_jgt:
  assumes "distinct (case_labels h)" and "unat (op bpf) = BPF_JMP_JGT_K h"
  shows "bpf_switch h v mach sys bpf m =
     Inr (m\<lparr>ip := ip m + ucast (if acc (state m) < k bpf then jt bpf else jf bpf)\<rparr>)"
  unfolding bpf_switch_def using assms(2) labels_neq [OF assms(1)] by simp

lemma switch_jge:
  assumes "distinct (case_labels h)" and "unat (op bpf) = BPF_JMP_JGE_K h"
  shows "bpf_switch h v mach sys bpf m =
     Inr (m\<lparr>ip := ip m + ucast (if acc (state m) \<le> k bpf then jt bpf else jf bpf)\<rparr>)"
  unfolding bpf_switch_def using assms(2) labels_neq [OF assms(1)] by simp

lemma pass_fetch:
  "unat (ip m) < length prg \<Longrightarrow>
   bpf_pass h v mach prg sys m = bpf_switch h v mach sys (prg ! unat (ip m)) (bpf_fetch m)"
  by (simp add: bpf_pass_def)

text \<open>
  Claim C2. A pass that fetches a LOAD-ABS instruction under width 32 or 64, with \<open>limit\<close>
  the offset limit of that width: when \<open>k\<close> is below the limit (and the limit lies within
  the record's bytes), the byte at offset \<open>k\<close> of the record becomes the accumulator and
  the loop goes on at the next instruction; when \<open>k\<close> is at or beyond the limit, the pass
  leaves through \<open>exit_error\<close> with \<open>ERANGE\<close> and the line of the instruction, and reads
  nothing outside the record.
\<close>

theorem load_abs:
  assumes "mach = 32 \<or> mach = 64"
    and "unat (ip m) < length prg"
    and "prg ! unat (ip m) = bpf"
    and "unat (op bpf) = BPF_LD_W_ABS h"
    and "(if mach = 32 then BPF_SYSCALL_MAX_32 h else BPF_SYSCALL_MAX_64 h) = limit"
  shows "(unat (k bpf) < limit \<and> limit \<le> length sys \<longrightarrow>
            bpf_pass h v mach prg sys m =
              Inr \<lparr>ip = ip m + 1, ip_c = ip m,
                   state = (state m)\<lparr>acc := ucast (sys ! unat (k bpf))\<rparr>\<rparr>)
         \<and> (limit \<le> unat (k bpf) \<longrightarrow>
              bpf_pass h v mach prg sys m = Inl (Exited (exit_error v ERANGE (ip m)))
              \<and> bpf_pass h v mach prg sys m \<noteq> Inl Undefined_read)"
  using assms by (auto simp add: pass_fetch switch_ld bpf_fetch_def load_acc_def)

theorem load_abs_witness:
  "bpf_pass linux_bpf_h False 64 [\<lparr>op = 0x20, jt = 0, jf = 0, k = 2\<rparr>] (replicate 50 0 @ [7, 9])
     \<lparr>ip = 0, ip_c = 0, state = \<lparr>acc = 0, temp = []\<rparr>\<rparr>
   = Inr \<lparr>ip = 1, ip_c = 0, state = \<lparr>acc = 0, temp = []\<rparr>\<rparr>
   \<and> bpf_pass linux_bpf_h False 64 [\<lparr>op = 0x20, jt = 0, jf = 0, k = 51\<rparr>] (replicate 50 0 @ [7, 9])
     \<lparr>ip = 0, ip_c = 0, state = \<lparr>acc = 0, temp = []\<rparr>\<rparr>
   = Inr \<lparr>ip = 1, ip_c = 0, state = \<lparr>acc = 9, temp = []\<rparr>\<rparr>
   \<and> bpf_pass linux_bpf_h False 64 [\<lparr>op = 0x20, jt = 0, jf = 0, k = 52\<rparr>] (replicate 50 0 @ [7, 9])
     \<lparr>ip = 0, ip_c = 0, state = \<lparr>acc = 0, temp = []\<rparr>\<rparr>
   = Inl (Exited (exit_error False ERANGE 0))"
  using load_abs [of 64 "\<lparr>ip = 0, ip_c = 0, state = \<lparr>acc = 0, temp = []\<rparr>\<rparr>"
      "[\<lparr>op = 0x20, jt = 0, jf = 0, k = 2\<rparr>]" "\<lparr>op = 0x20, jt = 0, jf = 0, k = 2\<rparr>"
      linux_bpf_h 52 "replicate 50 0 @ [7, 9]" False]
   load_abs [of 64 "\<lparr>ip = 0, ip_c = 0, state = \<lparr>acc = 0, temp = []\<rparr>\<rparr>"
      "[\<lparr>op = 0x20, jt = 0, jf = 0, k = 51\<rparr>]" "\<lparr>op = 0x20, jt = 0, jf = 0, k = 51\<rparr>"
      linux_bpf_h 52 "replicate 50 0 @ [7, 9]" False]
   load_abs [of 64 "\<lparr>ip = 0, ip_c = 0, state = \<lparr>acc = 0, temp = []\<rparr>\<rparr>"
      "[\<lparr>op = 0x20, jt = 0, jf = 0, k = 52\<rparr>]" "\<lparr>op = 0x20, jt = 0, jf = 0, k = 52\<rparr>"
      linux_bpf_h 52 "replicate 50 0 @ [7, 9]" False]
  by (simp add: linux_bpf_h_def nth_append)

text \<open>
  Claim C3. A pass that fetches a JUMP-GT-K instruction moves the instruction pointer, past
  the instruction, by \<open>jt\<close> when the immediate \<open>k\<close> is greater than the accumulator and
  by \<open>jf\<close> otherwise. With \<open>k\<close> equal to the accumulator it is \<open>jf\<close>; with \<open>k = 10\<close> and
  accumulator 5 it is \<open>jt\<close>.
\<close>

theorem jump_gt_k:
  assumes "distinct (case_labels h)"
    and "unat (ip m) < length prg"
    and "prg ! unat (ip m) = bpf"
    and "unat (op bpf) = BPF_JMP_JGT_K h"
  shows "bpf_pass h v mach prg sys m =
           Inr (m\<lparr>ip_c := ip m,
                  ip := ip m + 1 + ucast (if k bpf > acc (state m) then jt bpf else jf bpf)\<rparr>)
         \<and> (k bpf = acc (state m) \<longrightarrow>
              bpf_pass h v mach prg sys m
                = Inr (m\<lparr>ip_c := ip m, ip := ip m + 1 + ucast (jf bpf)\<rparr>))
         \<and> (k bpf = 10 \<and> acc (state m) = 5 \<longrightarrow>
              bpf_pass h v mach prg sys m
                = Inr (m\<lparr>ip_c := ip m, ip := ip m + 1 + ucast (jt bpf)\<rparr>))"
  using assms by (simp add: pass_fetch switch_jgt bpf_fetch_def)

theorem jump_gt_k_witness:
  "bpf_pass linux_bpf_h False 32 [\<lparr>op = 0x25, jt = 2, jf = 7, k = 10\<rparr>] []
     \<lparr>ip = 0, ip_c = 0, state = \<lparr>acc = 5, temp = []\<rparr>\<rparr>
   = Inr \<lparr>ip = 3, ip_c = 0, state = \<lparr>acc = 5, temp = []\<rparr>\<rparr>"
  using jump_gt_k [of linux_bpf_h "\<lparr>ip = 0, ip_c = 0, state = \<lparr>acc = 5, temp = []\<rparr>\<rparr>"
      "[\<lparr>op = 0x25, jt = 2, jf = 7, k = 10\<rparr>]" "\<lparr>op = 0x25, jt = 2, jf = 7, k = 10\<rparr>" False 32 "[]"]
  by (simp add: linux_bpf_h_def case_labels_def)

subsection \<open>The loop\<close>

lemma load_acc_Inr:
  "load_acc sys bpf m = Inr m' \<Longrightarrow>
   unat (k bpf) < length sys \<and> m' = m\<lparr>state := (state m)\<lparr>acc := ucast (sys ! unat (k bpf))\<rparr>\<rparr>"
  by (simp add: load_acc_def split: if_splits)

lemma switch_Inr:
  assumes "bpf_switch h v mach sys bpf m = Inr m'"
  shows "(\<exists>b :: 8 word. m' = m\<lparr>state := (state m)\<lparr>acc := ucast b\<rparr>\<rparr>)
         \<or> (unat (op bpf) = BPF_JMP_JA h \<and> m' = m\<lparr>ip := ip m + k bpf\<rparr>)
         \<or> m' = m\<lparr>ip := ip m + ucast (jt bpf)\<rparr>
         \<or> m' = m\<lparr>ip := ip m + ucast (jf bpf)\<rparr>"
proof (cases "unat (op bpf) = BPF_LD_W_ABS h")
  case True
  with assms have "load_acc sys bpf m = Inr m'"
    by (simp add: bpf_switch_def split: if_splits)
  then show ?thesis by (blast dest: load_acc_Inr)
next
  case False
  with assms show ?thesis
    by (simp add: bpf_switch_def split: if_splits)
qed

lemma loop_pass_Inl:
  "bpf_pass h v mach prg sys m = Inl e \<Longrightarrow> bpf_loop h v mach prg sys m = Some e"
  by (subst bpf_loop.simps) simp

lemma loop_pass_Inr:
  "bpf_pass h v mach prg sys m = Inr m' \<Longrightarrow>
   bpf_loop h v mach prg sys m = bpf_loop h v mach prg sys m'"
  by (subst bpf_loop.simps) simp

lemma passes_Inr_loop:
  "bpf_passes n h v mach prg sys m = Inr m' \<Longrightarrow>
   bpf_loop h v mach prg sys m = bpf_loop h v mach prg sys m'"
proof (induction n arbitrary: m)
  case 0
  then show ?case by simp
next
  case (Suc n)
  then show ?case
    by (cases "bpf_pass h v mach prg sys m") (simp_all add: loop_pass_Inr)
qed

lemma passes_Inl_loop:
  "bpf_passes n h v mach prg sys m = Inl e \<Longrightarrow> bpf_loop h v mach prg sys m = Some e"
proof (induction n arbitrary: m)
  case 0
  then show ?case by simp
next
  case (Suc n)
  then show ?case
    by (cases "bpf_pass h v mach prg sys m") (simp_all add: loop_pass_Inl loop_pass_Inr)
qed

lemma loop_end:
  "length prg \<le> unat (ip m) \<Longrightarrow>
   bpf_loop h v mach prg sys m = Some (Exited (exit_error v ERANGE (ip_c m)))"
  by (rule loop_pass_Inl) (simp add: bpf_pass_def)

lemma pass_Inr:
  "bpf_pass h v mach prg sys m = Inr m' \<Longrightarrow>
   unat (ip m) < length prg \<and>
   bpf_switch h v mach sys (prg ! unat (ip m)) (bpf_fetch m) = Inr m'"
  by (simp add: bpf_pass_def split: if_splits)

lemma ucast_byte_le: "(ucast (b :: 8 word) :: 32 word) \<le> 255"
proof -
  have "unat b < 2 ^ LENGTH(8)" by (rule unsigned_less)
  then have "take_bit 32 (unat b) = unat b" by (simp add: take_bit_nat_eq_self)
  with \<open>unat b < 2 ^ LENGTH(8)\<close> show ?thesis
    by (simp add: word_le_nat_alt unsigned_ucast_eq)
qed

lemma pass_acc:
  assumes "acc (state m) \<le> 255" and "bpf_pass h v mach prg sys m = Inr m'"
  shows "acc (state m') \<le> 255"
proof -
  from assms(2) have "bpf_switch h v mach sys (prg ! unat (ip m)) (bpf_fetch m) = Inr m'"
    by (simp add: pass_Inr)
  from switch_Inr [OF this] assms(1) show ?thesis
    by (auto simp add: bpf_fetch_def ucast_byte_le)
qed

lemma pass_temp:
  assumes "bpf_pass h v mach prg sys m = Inr m'"
  shows "temp (state m') = temp (state m)"
proof -
  from assms have "bpf_switch h v mach sys (prg ! unat (ip m)) (bpf_fetch m) = Inr m'"
    by (simp add: pass_Inr)
  from switch_Inr [OF this] show ?thesis
    by (auto simp add: bpf_fetch_def)
qed

lemma passes_acc:
  "acc (state m) \<le> 255 \<Longrightarrow> bpf_passes n h v mach prg sys m = Inr m' \<Longrightarrow>
   acc (state m') \<le> 255"
proof (induction n arbitrary: m)
  case 0
  then show ?case by simp
next
  case (Suc n)
  show ?case
  proof (cases "bpf_pass h v mach prg sys m")
    case (Inl e)
    with Suc.prems show ?thesis by simp
  next
    case (Inr m1)
    with Suc.prems have "bpf_passes n h v mach prg sys m1 = Inr m'" by simp
    moreover have "acc (state m1) \<le> 255" using Suc.prems(1) Inr by (rule pass_acc)
    ultimately show ?thesis by (rule Suc.IH [rotated])
  qed
qed

lemma passes_temp:
  "bpf_passes n h v mach prg sys m = Inr m' \<Longrightarrow> temp (state m') = temp (state m)"
proof (induction n arbitrary: m)
  case 0
  then show ?case by simp
next
  case (Suc n)
  show ?case
  proof (cases "bpf_pass h v mach prg sys m")
    case (Inl e)
    with Suc.prems show ?thesis by simp
  next
    case (Inr m1)
    with Suc.prems have "bpf_passes n h v mach prg sys m1 = Inr m'" by simp
    then have "temp (state m') = temp (state m1)" by (rule Suc.IH)
    with pass_temp [OF Inr] show ?thesis by simp
  qed
qed

lemma switch_temp_frame:
  "bpf_switch h v mach sys bpf (m\<lparr>state := (state m)\<lparr>temp := t\<rparr>\<rparr>)
     = map_sum id (\<lambda>m'. m'\<lparr>state := (state m')\<lparr>temp := t\<rparr>\<rparr>) (bpf_switch h v mach sys bpf m)"
  by (simp add: bpf_switch_def load_acc_def)

lemma pass_temp_frame:
  "bpf_pass h v mach prg sys (m\<lparr>state := (state m)\<lparr>temp := t\<rparr>\<rparr>)
     = map_sum id (\<lambda>m'. m'\<lparr>state := (state m')\<lparr>temp := t\<rparr>\<rparr>) (bpf_pass h v mach prg sys m)"
  by (simp add: bpf_pass_def bpf_fetch_def bpf_switch_def load_acc_def)

subsection \<open>Running off the end of the program\<close>

lemma show_nat_34: "show_nat 34 = ''34''"
  by (simp add: show_nat.simps [of 34] show_nat.simps [of 3] char_of_def bit_0)

text \<open>
  Claim C4. When the machine reached after some passes from the initial one has its
  instruction pointer at or beyond the program length (no RETURN-K has ended the run, since
  the passes went on), the execution ends, and it ends through \<open>exit_error\<close> with
  \<open>ERANGE\<close>: nothing on stdout, status \<open>ENOEXEC\<close>, and no label is printed.
\<close>

theorem overrun_is_error_range:
  assumes "bpf_passes n h v mach prg sys (init_machine h) = Inr m"
    and "length prg \<le> unat (ip m)"
  shows "bpf_execute h v mach prg sys = Some (Exited (exit_error v ERANGE (ip_c m)))
         \<and> to_stdout (exit_error v ERANGE (ip_c m)) = []
         \<and> code (exit_error v ERANGE (ip_c m)) = Exit_errno ENOEXEC
         \<and> exit_error v ERANGE (ip_c m) \<noteq> print_exit_0 s"
proof -
  have "bpf_execute h v mach prg sys = bpf_loop h v mach prg sys m"
    unfolding bpf_execute_def using assms(1) by (rule passes_Inr_loop)
  with assms(2) show ?thesis
    by (simp add: loop_end exit_error_neq_print) (simp add: exit_error_def)
qed

theorem overrun_is_error_range_witness:
  "bpf_execute linux_bpf_h False 32 [\<lparr>op = 0x35, jt = 1, jf = 0, k = 0\<rparr>] []
   = Some (Exited (exit_error False ERANGE 0))"
proof -
  have "bpf_passes (Suc 0) linux_bpf_h False 32 [\<lparr>op = 0x35, jt = 1, jf = 0, k = 0\<rparr>] []
          (init_machine linux_bpf_h)
        = Inr \<lparr>ip = 2, ip_c = 0, state = \<lparr>acc = 0, temp = replicate 6 0\<rparr>\<rparr>"
    by (simp add: bpf_pass_def bpf_fetch_def bpf_switch_def init_machine_def linux_bpf_h_def)
  from overrun_is_error_range [OF this] show ?thesis by simp
qed

text \<open>
  Claim C5 says that an instruction pointer beyond the end of the program is reported as
  \<open>FAULT\<close> with the fault status. The program of one JUMP-EQ-K instruction with
  \<open>k = 0\<close>, \<open>jt = 0\<close> runs off its end and is reported as \<open>ERROR\<close> with status
  \<open>ENOEXEC\<close>.
\<close>

theorem overrun_fault_counterexample:
  "bpf_execute linux_bpf_h False 32 [\<lparr>op = 0x15, jt = 0, jf = 0, k = 0\<rparr>] []
     = Some (Exited (exit_error False ERANGE 0))
   \<and> to_stderr (exit_error False ERANGE 0) = ''ERROR'' @ newline
   \<and> to_stderr (exit_error False ERANGE 0) \<noteq> ''FAULT'' @ newline
   \<and> code (exit_error False ERANGE 0) = Exit_errno ENOEXEC
   \<and> code (exit_error False ERANGE 0) \<noteq> Exit_errno EFAULT"
proof -
  have "bpf_pass linux_bpf_h False 32 [\<lparr>op = 0x15, jt = 0, jf = 0, k = 0\<rparr>] []
          (init_machine linux_bpf_h)
        = Inr \<lparr>ip = 1, ip_c = 0, state = \<lparr>acc = 0, temp = replicate 6 0\<rparr>\<rparr>"
    by (simp add: bpf_pass_def bpf_fetch_def bpf_switch_def init_machine_def linux_bpf_h_def)
  then have "bpf_execute linux_bpf_h False 32 [\<lparr>op = 0x15, jt = 0, jf = 0, k = 0\<rparr>] []
        = bpf_loop linux_bpf_h False 32 [\<lparr>op = 0x15, jt = 0, jf = 0, k = 0\<rparr>] []
            \<lparr>ip = 1, ip_c = 0, state = \<lparr>acc = 0, temp = replicate 6 0\<rparr>\<rparr>"
    unfolding bpf_execute_def by (rule loop_pass_Inr)
  then show ?thesis
    by (simp add: loop_end) (simp add: exit_error_def)
qed

text \<open>
  Claim C5, amended. An instruction pointer beyond the end of the program is reported in
  the ERROR tier: nothing on stdout, \<open>ERROR\<close> on stderr (with the code of \<open>ERANGE\<close> and
  the line of the last instruction when verbose), status \<open>ENOEXEC\<close>.
\<close>

theorem overrun_reports_error:
  assumes "bpf_passes n h v mach prg sys (init_machine h) = Inr m"
    and "length prg \<le> unat (ip m)"
  shows "\<exists>e. bpf_execute h v mach prg sys = Some (Exited e)
           \<and> to_stdout e = []
           \<and> to_stderr e = (if v then ''ERROR: errno = 34, line = '' @ show_int (sint (ip_c m)) @ newline
                            else ''ERROR'' @ newline)
           \<and> code e = Exit_errno ENOEXEC"
proof -
  have "bpf_execute h v mach prg sys = bpf_loop h v mach prg sys m"
    unfolding bpf_execute_def using assms(1) by (rule passes_Inr_loop)
  with assms(2) have "bpf_execute h v mach prg sys = Some (Exited (exit_error v ERANGE (ip_c m)))"
    by (simp add: loop_end)
  then show ?thesis
    by (simp add: exit_error_def show_nat_34)
qed

theorem overrun_reports_error_witness:
  "\<exists>e. bpf_execute linux_bpf_h True 32 [] [] = Some (Exited e)
           \<and> to_stdout e = []
           \<and> to_stderr e = ''ERROR: errno = 34, line = 0'' @ newline
           \<and> code e = Exit_errno ENOEXEC"
proof -
  have "bpf_passes 0 linux_bpf_h True 32 [] [] (init_machine linux_bpf_h)
          = Inr (init_machine linux_bpf_h)"
    by simp
  from overrun_reports_error [OF this] show ?thesis
    by (simp add: init_machine_def show_int_def show_nat.simps [of 0] char_of_def bit_0)
qed

subsection \<open>Invariants of the machine state\<close>

text \<open>
  Claim C9. In every machine an execution goes through, the accumulator is at most 255: it
  starts at zero and is written only by LOAD-ABS, with one byte of the record. So a pass
  that fetches a conditional jump with \<open>k > 255\<close> does not depend on what was loaded:
  JUMP-EQ-K takes \<open>jf\<close>, JUMP-GT-K and JUMP-GE-K take \<open>jt\<close>.
\<close>

theorem acc_is_a_byte:
  assumes "bpf_passes n h v mach prg sys (init_machine h) = Inr m"
  shows "acc (state m) \<le> 255
         \<and> (distinct (case_labels h) \<and> unat (ip m) < length prg \<and> 255 < k (prg ! unat (ip m)) \<longrightarrow>
              (unat (op (prg ! unat (ip m))) = BPF_JMP_JEQ_K h \<longrightarrow>
                 bpf_pass h v mach prg sys m
                   = Inr (m\<lparr>ip_c := ip m, ip := ip m + 1 + ucast (jf (prg ! unat (ip m)))\<rparr>))
            \<and> (unat (op (prg ! unat (ip m))) = BPF_JMP_JGT_K h
                 \<or> unat (op (prg ! unat (ip m))) = BPF_JMP_JGE_K h \<longrightarrow>
                 bpf_pass h v mach prg sys m
                   = Inr (m\<lparr>ip_c := ip m, ip := ip m + 1 + ucast (jt (prg ! unat (ip m)))\<rparr>)))"
proof -
  have "acc (state (init_machine h)) \<le> 255" by (simp add: init_machine_def)
  then have a: "acc (state m) \<le> 255" using assms by (rule passes_acc)
  {
    assume d: "distinct (case_labels h)" and i: "unat (ip m) < length prg"
      and big: "255 < k (prg ! unat (ip m))"
    from a big have lt: "acc (state m) < k (prg ! unat (ip m))" by simp
    then have ne: "k (prg ! unat (ip m)) \<noteq> acc (state m)" and le: "acc (state m) \<le> k (prg ! unat (ip m))"
      by simp_all
    have "unat (op (prg ! unat (ip m))) = BPF_JMP_JEQ_K h \<Longrightarrow>
            bpf_pass h v mach prg sys m
              = Inr (m\<lparr>ip_c := ip m, ip := ip m + 1 + ucast (jf (prg ! unat (ip m)))\<rparr>)"
      using ne by (simp add: pass_fetch [OF i] switch_jeq [OF d] bpf_fetch_def)
    moreover have "unat (op (prg ! unat (ip m))) = BPF_JMP_JGT_K h \<Longrightarrow>
            bpf_pass h v mach prg sys m
              = Inr (m\<lparr>ip_c := ip m, ip := ip m + 1 + ucast (jt (prg ! unat (ip m)))\<rparr>)"
      using lt by (simp add: pass_fetch [OF i] switch_jgt [OF d] bpf_fetch_def)
    moreover have "unat (op (prg ! unat (ip m))) = BPF_JMP_JGE_K h \<Longrightarrow>
            bpf_pass h v mach prg sys m
              = Inr (m\<lparr>ip_c := ip m, ip := ip m + 1 + ucast (jt (prg ! unat (ip m)))\<rparr>)"
      using le by (simp add: pass_fetch [OF i] switch_jge [OF d] bpf_fetch_def)
    ultimately have "(unat (op (prg ! unat (ip m))) = BPF_JMP_JEQ_K h \<longrightarrow>
                 bpf_pass h v mach prg sys m
                   = Inr (m\<lparr>ip_c := ip m, ip := ip m + 1 + ucast (jf (prg ! unat (ip m)))\<rparr>))
            \<and> (unat (op (prg ! unat (ip m))) = BPF_JMP_JGT_K h
                 \<or> unat (op (prg ! unat (ip m))) = BPF_JMP_JGE_K h \<longrightarrow>
                 bpf_pass h v mach prg sys m
                   = Inr (m\<lparr>ip_c := ip m, ip := ip m + 1 + ucast (jt (prg ! unat (ip m)))\<rparr>))"
      by blast
  }
  with a show ?thesis by blast
qed

theorem acc_is_a_byte_witness:
  "bpf_pass linux_bpf_h False 32
     [\<lparr>op = 0x20, jt = 0, jf = 0, k = 4\<rparr>, \<lparr>op = 0x25, jt = 1, jf = 0, k = 256\<rparr>]
     (replicate 28 255) \<lparr>ip = 1, ip_c = 0, state = \<lparr>acc = 255, temp = replicate 6 0\<rparr>\<rparr>
   = Inr \<lparr>ip = 3, ip_c = 1, state = \<lparr>acc = 255, temp = replicate 6 0\<rparr>\<rparr>"
proof -
  have "bpf_passes (Suc 0) linux_bpf_h False 32
          [\<lparr>op = 0x20, jt = 0, jf = 0, k = 4\<rparr>, \<lparr>op = 0x25, jt = 1, jf = 0, k = 256\<rparr>]
          (replicate 28 255) (init_machine linux_bpf_h)
        = Inr \<lparr>ip = 1, ip_c = 0, state = \<lparr>acc = 255, temp = replicate 6 0\<rparr>\<rparr>"
    by (simp add: bpf_pass_def bpf_fetch_def switch_ld load_acc_def init_machine_def
          linux_bpf_h_def)
  from acc_is_a_byte [OF this] show ?thesis
    by (simp add: linux_bpf_h_def case_labels_def)
qed

text \<open>
  Claim C10. The scratch array is cleared at the start and is the same all-zero array in
  every machine an execution goes through; and a pass neither reads nor writes it: run
  with any other scratch contents, it gives the same outcome, or the same next machine
  with those contents unchanged.
\<close>

theorem scratch_untouched:
  assumes "bpf_passes n h v mach prg sys (init_machine h) = Inr m"
  shows "temp (state m) = replicate (BPF_SCRATCH_SIZE h) 0
         \<and> bpf_pass h v mach prg sys (m\<lparr>state := (state m)\<lparr>temp := t\<rparr>\<rparr>)
             = map_sum id (\<lambda>m'. m'\<lparr>state := (state m')\<lparr>temp := t\<rparr>\<rparr>)
                 (bpf_pass h v mach prg sys m)"
  using passes_temp [OF assms] by (simp add: pass_temp_frame) (simp add: init_machine_def)

theorem scratch_untouched_witness:
  "bpf_pass linux_bpf_h False 32
     [\<lparr>op = 0x20, jt = 0, jf = 0, k = 4\<rparr>, \<lparr>op = 0x15, jt = 1, jf = 0, k = 9\<rparr>]
     (replicate 28 9) \<lparr>ip = 1, ip_c = 0, state = \<lparr>acc = 9, temp = [1, 2, 3]\<rparr>\<rparr>
   = map_sum id (\<lambda>m'. m'\<lparr>state := (state m')\<lparr>temp := [1, 2, 3]\<rparr>\<rparr>)
       (bpf_pass linux_bpf_h False 32
         [\<lparr>op = 0x20, jt = 0, jf = 0, k = 4\<rparr>, \<lparr>op = 0x15, jt = 1, jf = 0, k = 9\<rparr>]
         (replicate 28 9) \<lparr>ip = 1, ip_c = 0, state = \<lparr>acc = 9, temp = replicate 6 0\<rparr>\<rparr>)"
proof -
  have "bpf_passes (Suc 0) linux_bpf_h False 32
          [\<lparr>op = 0x20, jt = 0, jf = 0, k = 4\<rparr>, \<lparr>op = 0x15, jt = 1, jf = 0, k = 9\<rparr>]
          (replicate 28 9) (init_machine linux_bpf_h)
        = Inr \<lparr>ip = 1, ip_c = 0, state = \<lparr>acc = 9, temp = replicate 6 0\<rparr>\<rparr>"
    by (simp add: bpf_pass_def bpf_fetch_def switch_ld load_acc_def init_machine_def
          linux_bpf_h_def)
  from scratch_untouched [OF this, of "[1, 2, 3]"] show ?thesis
    by simp
qed

subsection \<open>Termination\<close>

lemma loop_stuck:
  assumes "bpf_pass h v mach prg sys m = Inr m"
  shows "bpf_loop h v mach prg sys m = None"
proof (rule ccontr)
  assume "bpf_loop h v mach prg sys m \<noteq> None"
  then obtain y where "bpf_loop h v mach prg sys m = Some y" by auto
  then have "bpf_pass h v mach prg sys m \<noteq> Inr m"
    by (rule bpf_loop.raw_induct
          [where P = "\<lambda>h v mach prg sys m y. bpf_pass h v mach prg sys m \<noteq> Inr m", rotated])
       (auto split: sum.splits)
  with assms show False by simp
qed

lemma switch_Inl:
  assumes "bpf_switch h v mach sys bpf m = Inl e"
  shows "(e = Undefined_read \<and> \<not> unat (k bpf) < length sys \<and>
            (unat (k bpf) < BPF_SYSCALL_MAX_32 h \<or> unat (k bpf) < BPF_SYSCALL_MAX_64 h))
         \<or> e = Exited (exit_error v ERANGE (ip_c m))
         \<or> e = Exited (end_action v (k bpf) (ip_c m))
         \<or> e = Exited (exit_fault v EOPNOTSUPP)"
proof (cases "unat (op bpf) = BPF_LD_W_ABS h")
  case True
  with assms show ?thesis
    by (auto simp add: bpf_switch_def load_acc_def split: if_splits)
next
  case False
  with assms show ?thesis
    by (auto simp add: bpf_switch_def split: if_splits)
qed

lemma code_end_action: "code (end_action v a l) = Exit_0 \<or> code (end_action v a l) = Exit_errno ENOEXEC"
  by (simp add: end_action_def print_exit_0_def exit_error_def)

lemma pass_Inl:
  assumes "BPF_SYSCALL_MAX_32 h \<le> length sys" and "BPF_SYSCALL_MAX_64 h \<le> length sys"
    and "bpf_pass h v mach prg sys m = Inl e"
  shows "\<exists>x. e = Exited x \<and> code x \<in> {Exit_0, Exit_errno EFAULT, Exit_errno ENOEXEC}"
proof (cases "unat (ip m) < length prg")
  case True
  with assms(3) have "bpf_switch h v mach sys (prg ! unat (ip m)) (bpf_fetch m) = Inl e"
    by (simp add: bpf_pass_def)
  from switch_Inl [OF this] assms(1,2) code_end_action [of v "k (prg ! unat (ip m))" "ip_c (bpf_fetch m)"]
  show ?thesis
    by (auto simp add: exit_error_def exit_fault_def)
next
  case False
  with assms(3) show ?thesis
    by (auto simp add: bpf_pass_def exit_error_def)
qed

lemma pass_advances:
  assumes nowrap: "\<forall>i < length prg. unat (op (prg ! i)) = BPF_JMP_JA h \<longrightarrow>
                      i + 1 + unat (k (prg ! i)) < 2 ^ 32"
    and len: "length prg \<le> BPF_PRG_MAX_LEN"
    and pass: "bpf_pass h v mach prg sys m = Inr m'"
  shows "unat (ip m) < unat (ip m')"
proof -
  from pass have i: "unat (ip m) < length prg"
    and sw: "bpf_switch h v mach sys (prg ! unat (ip m)) (bpf_fetch m) = Inr m'"
    by (simp_all add: pass_Inr)
  from i len have small: "unat (ip m) < 4096" by (simp add: BPF_PRG_MAX_LEN_def)
  then have one: "unat (ip m + 1) = unat (ip m) + 1"
    using unat_add_lem [of "ip m" 1] by simp
  have byte: "unat (ip m + 1 + ucast b) = unat (ip m) + 1 + unat b" for b :: "8 word"
  proof -
    have "unat b < 2 ^ LENGTH(8)" by (rule unsigned_less)
    then have b: "unat b < 256" by simp
    then have "unat (ucast b :: 32 word) = unat b"
      by (simp add: unsigned_ucast_eq take_bit_nat_eq_self)
    with one small b show ?thesis
      using unat_add_lem [of "ip m + 1" "ucast b :: 32 word"] by simp
  qed
  from switch_Inr [OF sw] show ?thesis
  proof (elim disjE exE conjE)
    fix b :: "8 word"
    assume "m' = (bpf_fetch m)\<lparr>state := (state (bpf_fetch m))\<lparr>acc := ucast b\<rparr>\<rparr>"
    with one show ?thesis by (simp add: bpf_fetch_def)
  next
    assume ja: "unat (op (prg ! unat (ip m))) = BPF_JMP_JA h"
      and m': "m' = (bpf_fetch m)\<lparr>ip := ip (bpf_fetch m) + k (prg ! unat (ip m))\<rparr>"
    from nowrap i ja have "unat (ip m) + 1 + unat (k (prg ! unat (ip m))) < 2 ^ 32" by blast
    with one have "unat (ip m + 1 + k (prg ! unat (ip m))) = unat (ip m) + 1 + unat (k (prg ! unat (ip m)))"
      using unat_add_lem [of "ip m + 1" "k (prg ! unat (ip m))"] by simp
    with m' show ?thesis by (simp add: bpf_fetch_def)
  next
    assume "m' = (bpf_fetch m)\<lparr>ip := ip (bpf_fetch m) + ucast (jt (prg ! unat (ip m)))\<rparr>"
    with byte [of "jt (prg ! unat (ip m))"] show ?thesis by (simp add: bpf_fetch_def)
  next
    assume "m' = (bpf_fetch m)\<lparr>ip := ip (bpf_fetch m) + ucast (jf (prg ! unat (ip m)))\<rparr>"
    with byte [of "jf (prg ! unat (ip m))"] show ?thesis by (simp add: bpf_fetch_def)
  qed
qed

lemma passes_Suc_Inr:
  "bpf_pass h v mach prg sys m = Inr m1 \<Longrightarrow>
   bpf_passes (Suc n) h v mach prg sys m = bpf_passes n h v mach prg sys m1"
  by simp

lemma passes_terminate:
  assumes nowrap: "\<forall>i < length prg. unat (op (prg ! i)) = BPF_JMP_JA h \<longrightarrow>
                      i + 1 + unat (k (prg ! i)) < 2 ^ 32"
    and len: "length prg \<le> BPF_PRG_MAX_LEN"
  shows "length prg - unat (ip m) \<le> d \<Longrightarrow>
         \<exists>n e. n \<le> d \<and> bpf_passes (Suc n) h v mach prg sys m = Inl e"
proof (induction d arbitrary: m)
  case 0
  then have "bpf_pass h v mach prg sys m = Inl (Exited (exit_error v ERANGE (ip_c m)))"
    by (simp add: bpf_pass_def)
  then have "bpf_passes (Suc 0) h v mach prg sys m = Inl (Exited (exit_error v ERANGE (ip_c m)))"
    by simp
  then show ?case by blast
next
  case (Suc d)
  show ?case
  proof (cases "bpf_pass h v mach prg sys m")
    case (Inl e)
    then have "bpf_passes (Suc 0) h v mach prg sys m = Inl e" by simp
    then show ?thesis by blast
  next
    case (Inr m1)
    from pass_advances [OF nowrap len Inr] Suc.prems
    have "length prg - unat (ip m1) \<le> d" by arith
    from Suc.IH [OF this] obtain n e
      where n: "n \<le> d" and e: "bpf_passes (Suc n) h v mach prg sys m1 = Inl e"
      by blast
    from e have "bpf_passes (Suc (Suc n)) h v mach prg sys m = Inl e"
      by (simp only: passes_Suc_Inr [OF Inr])
    with n show ?thesis by (meson Suc_le_mono)
  qed
qed

lemma passes_Inl:
  assumes "BPF_SYSCALL_MAX_32 h \<le> length sys" and "BPF_SYSCALL_MAX_64 h \<le> length sys"
  shows "bpf_passes n h v mach prg sys m = Inl e \<Longrightarrow>
         \<exists>x. e = Exited x \<and> code x \<in> {Exit_0, Exit_errno EFAULT, Exit_errno ENOEXEC}"
proof (induction n arbitrary: m)
  case 0
  then show ?case by simp
next
  case (Suc n)
  show ?case
  proof (cases "bpf_pass h v mach prg sys m")
    case (Inl e')
    with Suc.prems have "e' = e" by simp
    with Inl show ?thesis using pass_Inl [OF assms] by blast
  next
    case (Inr m1)
    with Suc.prems have "bpf_passes n h v mach prg sys m1 = Inl e" by simp
    then show ?thesis by (rule Suc.IH)
  qed
qed

text \<open>
  Claim C8 says that a program without a JUMP-ALWAYS of offset 0 always terminates. The
  instruction pointer is an \<open>unsigned int\<close> and is bumped before the offset is added, so
  the jump that returns to itself has offset \<open>0xffffffff\<close>; offset 0 goes to the next
  instruction. The program of that single jump has no zero-offset jump and never ends.
\<close>

theorem wrapping_jump_counterexample:
  "\<not> list_ex (\<lambda>bpf. unat (op bpf) = BPF_JMP_JA linux_bpf_h \<and> k bpf = 0)
       [\<lparr>op = 0x05, jt = 0, jf = 0, k = 0xffffffff\<rparr>]
   \<and> bpf_execute linux_bpf_h False 32 [\<lparr>op = 0x05, jt = 0, jf = 0, k = 0xffffffff\<rparr>] [] = None"
proof -
  have "bpf_pass linux_bpf_h False 32 [\<lparr>op = 0x05, jt = 0, jf = 0, k = 0xffffffff\<rparr>] []
          (init_machine linux_bpf_h) = Inr (init_machine linux_bpf_h)"
    by (simp add: bpf_pass_def bpf_fetch_def bpf_switch_def init_machine_def linux_bpf_h_def)
  then show ?thesis
    unfolding bpf_execute_def by (simp add: loop_stuck)
qed

text \<open>
  Claim C8, amended. For a program within the loader's capacity in which no JUMP-ALWAYS
  makes the 32-bit instruction pointer wrap (index + 1 + \<open>k\<close> stays below \<open>2 ^ 32\<close>), and a
  record that covers both offset limits, execution ends after at most as many passes as
  the program has instructions, plus the one that leaves, with status 0, \<open>EFAULT\<close> or
  \<open>ENOEXEC\<close>. Zero-offset jumps are allowed.
\<close>

theorem execution_terminates:
  assumes "\<forall>i < length prg. unat (op (prg ! i)) = BPF_JMP_JA h \<longrightarrow>
              i + 1 + unat (k (prg ! i)) < 2 ^ 32"
    and "length prg \<le> BPF_PRG_MAX_LEN"
    and "BPF_SYSCALL_MAX_32 h \<le> length sys" and "BPF_SYSCALL_MAX_64 h \<le> length sys"
  shows "\<exists>n e. n \<le> length prg
           \<and> bpf_passes (Suc n) h v mach prg sys (init_machine h) = Inl (Exited e)
           \<and> bpf_execute h v mach prg sys = Some (Exited e)
           \<and> code e \<in> {Exit_0, Exit_errno EFAULT, Exit_errno ENOEXEC}"
proof -
  have "length prg - unat (ip (init_machine h)) \<le> length prg" by simp
  from passes_terminate [OF assms(1,2) this] obtain n e
    where n: "n \<le> length prg"
      and e: "bpf_passes (Suc n) h v mach prg sys (init_machine h) = Inl e"
    by blast
  from passes_Inl [OF assms(3,4) e] obtain x
    where x: "e = Exited x" "code x \<in> {Exit_0, Exit_errno EFAULT, Exit_errno ENOEXEC}"
    by blast
  from e have "bpf_execute h v mach prg sys = Some e"
    unfolding bpf_execute_def by (rule passes_Inl_loop)
  with n e x show ?thesis by blast
qed

theorem execution_terminates_witness:
  "\<exists>n e. n \<le> 2
     \<and> bpf_passes (Suc n) linux_bpf_h False 32
         [\<lparr>op = 0x05, jt = 0, jf = 0, k = 0\<rparr>, \<lparr>op = 0x06, jt = 0, jf = 0, k = 0x7fff0000\<rparr>]
         (replicate 52 0) (init_machine linux_bpf_h) = Inl (Exited e)
     \<and> bpf_execute linux_bpf_h False 32
         [\<lparr>op = 0x05, jt = 0, jf = 0, k = 0\<rparr>, \<lparr>op = 0x06, jt = 0, jf = 0, k = 0x7fff0000\<rparr>]
         (replicate 52 0) = Some (Exited e)
     \<and> code e \<in> {Exit_0, Exit_errno EFAULT, Exit_errno ENOEXEC}"
proof -
  let ?prg = "[\<lparr>op = 0x05, jt = 0, jf = 0, k = 0\<rparr>, \<lparr>op = 0x06, jt = 0, jf = 0, k = 0x7fff0000\<rparr>]"
  have nowrap: "\<forall>i < length ?prg. unat (op (?prg ! i)) = BPF_JMP_JA linux_bpf_h \<longrightarrow>
                  i + 1 + unat (k (?prg ! i)) < 2 ^ 32"
    by (auto simp add: less_Suc_eq linux_bpf_h_def)
  have len: "length ?prg \<le> BPF_PRG_MAX_LEN"
    by (simp add: BPF_PRG_MAX_LEN_def)
  have rec: "BPF_SYSCALL_MAX_32 linux_bpf_h \<le> length (replicate 52 (0 :: 8 word))"
    "BPF_SYSCALL_MAX_64 linux_bpf_h \<le> length (replicate 52 (0 :: 8 word))"
    by (simp_all add: linux_bpf_h_def)
  from execution_terminates [OF nowrap len rec, of False 32] show ?thesis
    by (simp add: numeral_2_eq_2)
qed

subsection \<open>The loader\<close>

lemma load_full:
  assumes "0 < sz" and "sz \<le> length rest"
  shows "load_loop v sz rest i =
           (if Suc (length i) = BPF_PRG_MAX_LEN then Inl (exit_fault v E2BIG)
            else load_loop v sz (drop sz rest) (i @ [take sz rest]))"
  using assms by (subst load_loop.simps) (simp add: read_fd_def)

lemma load_short:
  assumes "0 < sz" and "length rest < sz" and "length i \<noteq> BPF_PRG_MAX_LEN"
  shows "load_loop v sz rest i = Inr i"
proof -
  have empty: "load_loop v sz [] i = Inr i"
    using assms(1,3) by (subst load_loop.simps) (simp add: read_fd_def)
  show ?thesis
  proof (cases "rest = []")
    case True
    with empty show ?thesis by simp
  next
    case False
    with assms have "load_loop v sz rest i = load_loop v sz [] i"
      by (subst load_loop.simps) (simp add: read_fd_def)
    with empty show ?thesis by simp
  qed
qed

lemma div_drop:
  assumes "0 < sz" and "length rest div sz = Suc q"
  shows "sz \<le> length rest" and "length (drop sz rest) div sz = q"
proof -
  show le: "sz \<le> length rest"
  proof (rule ccontr)
    assume "\<not> sz \<le> length rest"
    then have "length rest div sz = 0" by simp
    with assms(2) show False by simp
  qed
  with assms(1) have "length rest div sz = Suc ((length rest - sz) div sz)"
    by (rule le_div_geq)
  with assms(2) show "length (drop sz rest) div sz = q" by simp
qed

lemma load_loop_fault:
  assumes sz: "0 < sz"
  shows "length rest div sz = q \<Longrightarrow> length i < BPF_PRG_MAX_LEN \<Longrightarrow>
         BPF_PRG_MAX_LEN \<le> length i + q \<Longrightarrow>
         load_loop v sz rest i = Inl (exit_fault v E2BIG)"
proof (induction q arbitrary: rest i)
  case 0
  then show ?case by simp
next
  case (Suc q)
  from div_drop [OF sz Suc.prems(1)]
  have le: "sz \<le> length rest" and q: "length (drop sz rest) div sz = q" .
  show ?case
  proof (cases "Suc (length i) = BPF_PRG_MAX_LEN")
    case True
    then show ?thesis by (simp add: load_full [OF sz le])
  next
    case False
    with Suc.prems have "length (i @ [take sz rest]) < BPF_PRG_MAX_LEN"
      and "BPF_PRG_MAX_LEN \<le> length (i @ [take sz rest]) + q"
      by simp_all
    from Suc.IH [OF q this] False show ?thesis
      by (simp add: load_full [OF sz le])
  qed
qed

lemma load_loop_ok:
  assumes sz: "0 < sz"
  shows "length rest div sz = q \<Longrightarrow> length i + q < BPF_PRG_MAX_LEN \<Longrightarrow>
         \<exists>i'. load_loop v sz rest i = Inr i' \<and> length i' = length i + q
              \<and> concat i' = concat i @ take (sz * q) rest"
proof (induction q arbitrary: rest i)
  case 0
  with sz have "length rest < sz"
    by (simp add: div_eq_0_iff)
  moreover from 0 have "length i \<noteq> BPF_PRG_MAX_LEN" by simp
  ultimately have "load_loop v sz rest i = Inr i" by (rule load_short [OF sz])
  then show ?case by simp
next
  case (Suc q)
  from div_drop [OF sz Suc.prems(1)]
  have le: "sz \<le> length rest" and q: "length (drop sz rest) div sz = q" .
  from Suc.prems(2) have ne: "Suc (length i) \<noteq> BPF_PRG_MAX_LEN"
    and lt: "length (i @ [take sz rest]) + q < BPF_PRG_MAX_LEN"
    by simp_all
  from Suc.IH [OF q lt] obtain i'
    where i': "load_loop v sz (drop sz rest) (i @ [take sz rest]) = Inr i'"
      "length i' = length (i @ [take sz rest]) + q"
      "concat i' = concat (i @ [take sz rest]) @ take (sz * q) (drop sz rest)"
    by blast
  have "take sz rest @ take (sz * q) (drop sz rest) = take (sz * Suc q) rest"
    by (simp add: take_add)
  with i' ne show ?case
    by (simp add: load_full [OF sz le])
qed


text \<open>
  Claim C6 says that a stream of up to 4096 complete records loads. The test of line 316
  runs after the count is raised and compares with \<open>==\<close>: a stream of exactly 4096
  records of 8 bytes is rejected with \<open>E2BIG\<close> before anything is executed, although the
  buffer has room for it; 4095 records are the most that load.
\<close>

theorem loader_rejects_4096_records:
  "load_loop False 8 (replicate (4096 * 8) 0) [] = Inl (exit_fault False E2BIG)
   \<and> load_and_execute linux_bpf_h False 32 decode (replicate (4096 * 8) 0) sys
       = Some (Exited (exit_fault False E2BIG))
   \<and> (\<exists>i. load_loop False 8 (replicate (4095 * 8) 0) [] = Inr i \<and> length i = 4095)"
proof -
  have a: "load_loop False 8 (replicate (4096 * 8) 0) [] = Inl (exit_fault False E2BIG)"
    by (rule load_loop_fault [where q = 4096]) (simp_all add: BPF_PRG_MAX_LEN_def)
  then have b: "load_and_execute linux_bpf_h False 32 decode (replicate (4096 * 8) 0) sys
       = Some (Exited (exit_fault False E2BIG))"
    by (simp add: load_and_execute_def linux_bpf_h_def)
  have c: "\<exists>i. load_loop False 8 (replicate (4095 * 8) 0) [] = Inr i \<and> length i = 4095"
    using load_loop_ok [where sz = 8 and rest = "replicate (4095 * 8) (0 :: 8 word)" and q = 4095
        and i = "[]" and v = False]
    by (auto simp add: BPF_PRG_MAX_LEN_def)
  from a b c show ?thesis by blast
qed

text \<open>
  Claim C7 says that for every byte stream the number of instructions loaded is the byte
  length divided by the record size, with no fault. A stream of 4097 records of 8 bytes
  and 3 more bytes is over the capacity: nothing is loaded, the loader leaves with the
  \<open>E2BIG\<close> fault.
\<close>

theorem count_over_capacity_counterexample:
  "length (replicate (4097 * 8 + 3) (0 :: 8 word)) div 8 = 4097
   \<and> load_loop False 8 (replicate (4097 * 8 + 3) 0) [] = Inl (exit_fault False E2BIG)"
proof -
  have "load_loop False 8 (replicate (4097 * 8 + 3) 0) [] = Inl (exit_fault False E2BIG)"
    by (rule load_loop_fault [where q = 4097]) (simp_all add: BPF_PRG_MAX_LEN_def)
  then show ?thesis by simp
qed

text \<open>
  Claim C7, amended. For every byte stream that holds fewer than 4096 complete records,
  the loader ends without fault, the number of instructions loaded is the byte length
  divided by the record size, and the instructions are the complete records in order:
  the bytes of a final partial record are not counted.
\<close>

theorem partial_record_dropped:
  assumes "0 < sz" and "length file div sz < BPF_PRG_MAX_LEN"
  shows "\<exists>i. load_loop v sz file [] = Inr i
           \<and> length i = length file div sz
           \<and> concat i = take (sz * (length file div sz)) file"
  using load_loop_ok [OF assms(1) refl, where i = "[]" and rest = "file" and v = v] assms(2)
  by simp

theorem partial_record_dropped_witness:
  "\<exists>i. load_loop False 8 [1, 2, 3, 4, 5, 6, 7, 8, 9, 10, 11, 12, 13, 14, 15, 16, 17, 18, 19] [] = Inr i
     \<and> length i = 2
     \<and> concat i = [1, 2, 3, 4, 5, 6, 7, 8, 9, 10, 11, 12, 13, 14, 15, 16]"
  using partial_record_dropped
    [of 8 "[1, 2, 3, 4, 5, 6, 7, 8, 9, 10, 11, 12, 13, 14, 15, 16, 17, 18, 19]" False]
  by (simp add: BPF_PRG_MAX_LEN_def)

end
